theory Spec2Isabelle
  imports Complex_Main "HOL-Library.Sublist"
begin

section \<open>Data model\<close>

text \<open>
  A cookie as Playwright hands it out and as \<^verbatim>\<open>JSON.parse\<close> reads it back from a cookie
  file. \<open>expires\<close> is a JavaScript number (seconds since the epoch, fractions allowed);
  \<open>None\<close> stands for a record without the field (\<^verbatim>\<open>undefined\<close> or \<^verbatim>\<open>null\<close>).
  Numbers are modelled as reals: the comparisons of the source are comparisons of finite
  doubles, which agree with the order of the reals.
\<close>

record Cookie =
  name :: string
  val :: string
  domain :: string
  cpath :: string
  expires :: "real option"
  httpOnly :: bool
  secure :: bool
  sameSite :: string

text \<open>
  A path is the list of its segments: \<^verbatim>\<open>path.join\<close> appends segments and
  \<^verbatim>\<open>path.dirname\<close> drops the last one. This is exact for segments that hold no
  separator and are neither \<^verbatim>\<open>.\<close> nor \<^verbatim>\<open>..\<close>, which is the case for every segment the
  source builds from a catalog key.
\<close>

type_synonym path = "string list"

definition path_join :: "path \<Rightarrow> string list \<Rightarrow> path" where
  "path_join dir segs = dir @ segs"

definition dirname :: "path \<Rightarrow> path" where
  "dirname p = butlast p"

text \<open>
  The part of the outside world the authentication manager reads and writes: the home
  directory, the clock (\<^verbatim>\<open>Date.now() / 1000\<close>), the cookie files with their parsed
  content, their permission bits, the directories that exist, and the number of browsers
  launched so far. A file that is missing, unreadable or not valid JSON has no entry in
  \<open>files\<close>.
\<close>

record world =
  homedir :: path
  now :: real
  files :: "path \<rightharpoonup> Cookie list"
  modes :: "path \<rightharpoonup> nat"
  dirs :: "path set"
  launches :: nat

section \<open>JavaScript strings and objects\<close>

definition toLowerChar :: "char \<Rightarrow> char" where
  "toLowerChar c =
     (case map_of (zip ''ABCDEFGHIJKLMNOPQRSTUVWXYZ'' ''abcdefghijklmnopqrstuvwxyz'') c of
        Some l \<Rightarrow> l
      | None \<Rightarrow> c)"

text \<open>
  \<^verbatim>\<open>String.prototype.toLowerCase\<close> on the ASCII range; service keys and cookie names
  (tokens of RFC 6265) are ASCII.
\<close>

definition toLowerCase :: "string \<Rightarrow> string" where
  "toLowerCase s = map toLowerChar s"

text \<open>\<^verbatim>\<open>String.prototype.includes\<close>: the argument occurs as a contiguous substring.\<close>

fun str_includes :: "string \<Rightarrow> string \<Rightarrow> bool" where
  "str_includes [] sub = (sub = [])"
| "str_includes (c # s) sub = (prefix sub (c # s) \<or> str_includes s sub)"

text \<open>\<^verbatim>\<open>Array.prototype.find\<close>: the first element, in order, that satisfies the predicate.\<close>

fun array_find :: "('a \<Rightarrow> bool) \<Rightarrow> 'a list \<Rightarrow> 'a option" where
  "array_find p [] = None"
| "array_find p (x # xs) = (if p x then Some x else array_find p xs)"

text \<open>
  Reading a property of an object literal, \<^verbatim>\<open>obj[key]\<close>: the object's own property when
  it has one; otherwise the lookup goes on in \<^verbatim>\<open>Object.prototype\<close>, whose properties
  (functions, and the prototype object itself for \<^verbatim>\<open>__proto__\<close>) are all truthy and
  carry none of the fields of a service descriptor; otherwise \<^verbatim>\<open>undefined\<close>.
\<close>

datatype 'a js_property = Own 'a | Inherited | Undefined

definition objectPrototypeProps :: "string list" where
  "objectPrototypeProps =
     [''constructor'', ''__defineGetter__'', ''__defineSetter__'', ''hasOwnProperty'',
      ''__lookupGetter__'', ''__lookupSetter__'', ''isPrototypeOf'',
      ''propertyIsEnumerable'', ''toString'', ''valueOf'', ''__proto__'',
      ''toLocaleString'']"

definition js_get :: "(string \<times> 'a) list \<Rightarrow> string \<Rightarrow> 'a js_property" where
  "js_get obj k =
     (case map_of obj k of
        Some v \<Rightarrow> Own v
      | None \<Rightarrow> if k \<in> set objectPrototypeProps then Inherited else Undefined)"

text \<open>The operator \<^verbatim>\<open>key in obj\<close> follows the same chain.\<close>

definition js_in :: "string \<Rightarrow> (string \<times> 'a) list \<Rightarrow> bool" where
  "js_in k obj = (js_get obj k \<noteq> Undefined)"

section \<open>Service registry\<close>

datatype sessionType = cookie_session | token_session

record ServiceConfig =
  sc_name :: string
  url :: string
  cookieDomain :: string
  sessionType :: sessionType
  description :: string
  legacyPath :: "string option"

definition SERVICE_CONFIGS :: "(string \<times> ServiceConfig) list" where
  "SERVICE_CONFIGS =
     [(''datahub'',
        \<lparr>sc_name = ''DataHub'', url = ''https://datahub.eng.toasttab.com'',
         cookieDomain = ''datahub.eng.toasttab.com'', sessionType = cookie_session,
         description = ''Toast's metadata platform'',
         legacyPath = Some ''~/.mcp-datahub/cookies.json''\<rparr>),
      (''splunk'',
        \<lparr>sc_name = ''Splunk Cloud'', url = ''https://toast.splunkcloud.com'',
         cookieDomain = ''toast.splunkcloud.com'', sessionType = token_session,
         description = ''Log aggregation and monitoring'',
         legacyPath = Some ''~/.mcp-splunk/cookies.json''\<rparr>),
      (''zeppelin'',
        \<lparr>sc_name = ''Zeppelin'', url = ''https://zeppelin-okta.eng.toasttab.com'',
         cookieDomain = ''zeppelin-okta.eng.toasttab.com'', sessionType = cookie_session,
         description = ''Interactive data analytics notebooks'',
         legacyPath = Some ''~/.mcp-zeppelin/cookies.json''\<rparr>)]"

definition listServices :: "ServiceConfig list" where
  "listServices = map snd SERVICE_CONFIGS"

definition getService :: "string \<Rightarrow> ServiceConfig js_property" where
  "getService nm = js_get SERVICE_CONFIGS (toLowerCase nm)"

definition isValidService :: "string \<Rightarrow> bool" where
  "isValidService nm = js_in (toLowerCase nm) SERVICE_CONFIGS"

definition getServiceNames :: "string list" where
  "getServiceNames = map fst SERVICE_CONFIGS"

section \<open>Session validation\<close>

text \<open>
  \<^verbatim>\<open>validateOktaSession\<close>: the first cookie named \<^verbatim>\<open>JSESSIONID\<close> or \<^verbatim>\<open>idx\<close> decides.
  The test \<^verbatim>\<open>sessionCookie.expires && sessionCookie.expires < now\<close> is a truthiness test
  followed by a strict comparison: an absent expiry and the number 0 are both falsy.
\<close>

definition isSessionCookie :: "Cookie \<Rightarrow> bool" where
  "isSessionCookie c = (name c = ''JSESSIONID'' \<or> name c = ''idx'')"

definition validateOktaSession :: "world \<Rightarrow> Cookie list \<Rightarrow> bool" where
  "validateOktaSession w cookies =
     (case array_find isSessionCookie cookies of
        None \<Rightarrow> False
      | Some sessionCookie \<Rightarrow>
          (case expires sessionCookie of
             None \<Rightarrow> True
           | Some e \<Rightarrow> if e \<noteq> 0 \<and> e < now w then False else True))"

section \<open>Cookie files\<close>

text \<open>A thrown JavaScript \<^verbatim>\<open>Error\<close> with its message.\<close>

datatype js_error = Error string

definition authDir :: "world \<Rightarrow> path" where
  "authDir w = path_join (homedir w) [''.mcp-auth'']"

definition oktaCookieFile :: "world \<Rightarrow> path" where
  "oktaCookieFile w = path_join (authDir w) [''okta-cookies.json'']"

definition serviceCookieDir :: "world \<Rightarrow> path" where
  "serviceCookieDir w = path_join (authDir w) [''services'']"

definition serviceFile :: "world \<Rightarrow> string \<Rightarrow> path" where
  "serviceFile w service = path_join (serviceCookieDir w) [service @ ''.json'']"

text \<open>
  The calls of \<^verbatim>\<open>fs.promises\<close> the manager makes. \<^verbatim>\<open>readFile\<close> followed by
  \<^verbatim>\<open>JSON.parse\<close> throws when the file has no readable, well-formed content;
  \<^verbatim>\<open>writeFile\<close> throws when the directory of the file does not exist;
  \<^verbatim>\<open>mkdir\<close> with \<^verbatim>\<open>recursive\<close> creates the directory with its ancestors and accepts
  an existing one; \<^verbatim>\<open>rm\<close> with \<^verbatim>\<open>force\<close> accepts a missing target. \<open>modes\<close> records the
  permission bits that \<^verbatim>\<open>chmod\<close> has set. The content of a file is the value that
  \<^verbatim>\<open>JSON.parse\<close> reads from it: \<^verbatim>\<open>JSON.stringify\<close> followed by \<^verbatim>\<open>JSON.parse\<close> is the
  identity on lists of cookies as modelled here (strings, booleans, finite numbers and
  absent fields).
\<close>

definition fs_readJson :: "world \<Rightarrow> path \<Rightarrow> js_error + Cookie list" where
  "fs_readJson w p =
     (case files w p of
        None \<Rightarrow> Inl (Error ''ENOENT: no such file or directory'')
      | Some data \<Rightarrow> Inr data)"

definition fs_writeFile :: "world \<Rightarrow> path \<Rightarrow> Cookie list \<Rightarrow> js_error + world" where
  "fs_writeFile w p data =
     (if dirname p \<in> dirs w then Inr (w\<lparr>files := (files w)(p \<mapsto> data)\<rparr>)
      else Inl (Error ''ENOENT: no such file or directory''))"

definition fs_chmod :: "world \<Rightarrow> path \<Rightarrow> nat \<Rightarrow> world" where
  "fs_chmod w p m = w\<lparr>modes := (modes w)(p \<mapsto> m)\<rparr>"

definition fs_mkdir :: "world \<Rightarrow> path \<Rightarrow> world" where
  "fs_mkdir w d = w\<lparr>dirs := dirs w \<union> set (prefixes d)\<rparr>"

definition fs_rm_force :: "world \<Rightarrow> path \<Rightarrow> world" where
  "fs_rm_force w p = w\<lparr>files := (files w)(p := None), modes := (modes w)(p := None)\<rparr>"

definition fs_rm_recursive :: "world \<Rightarrow> path \<Rightarrow> world" where
  "fs_rm_recursive w d =
     w\<lparr>files := (\<lambda>p. if prefix d p then None else files w p),
       modes := (\<lambda>p. if prefix d p then None else modes w p),
       dirs := {x \<in> dirs w. \<not> prefix d x}\<rparr>"

definition ensureDirectories :: "world \<Rightarrow> world" where
  "ensureDirectories w = fs_mkdir (fs_mkdir w (authDir w)) (serviceCookieDir w)"

definition loadOktaCookies :: "world \<Rightarrow> Cookie list option" where
  "loadOktaCookies w =
     (case fs_readJson w (oktaCookieFile w) of Inl _ \<Rightarrow> None | Inr data \<Rightarrow> Some data)"

definition saveOktaCookies :: "world \<Rightarrow> Cookie list \<Rightarrow> js_error + world" where
  "saveOktaCookies w cookies =
     (case fs_writeFile w (oktaCookieFile w) cookies of
        Inl e \<Rightarrow> Inl e
      | Inr w1 \<Rightarrow> Inr (fs_chmod w1 (oktaCookieFile w) 384))"

definition loadServiceCookies :: "world \<Rightarrow> string \<Rightarrow> Cookie list" where
  "loadServiceCookies w service =
     (case fs_readJson w (serviceFile w service) of Inl _ \<Rightarrow> [] | Inr data \<Rightarrow> data)"

definition saveServiceCookies :: "world \<Rightarrow> string \<Rightarrow> Cookie list \<Rightarrow> js_error + world" where
  "saveServiceCookies w service cookies =
     (case fs_writeFile w (serviceFile w service) cookies of
        Inl e \<Rightarrow> Inl e
      | Inr w1 \<Rightarrow> Inr (fs_chmod w1 (serviceFile w service) 384))"

section \<open>Authentication manager\<close>

text \<open>
  \<^verbatim>\<open>AuthResult\<close>; its field \<^verbatim>\<open>expiresAt\<close> is declared and never assigned. \<open>result\<close>
  builds the object literal with the two mandatory fields.
\<close>

record AuthResult =
  success :: bool
  message :: string
  service :: "string option"
  cookies :: "Cookie list option"
  token :: "string option"

definition result :: "bool \<Rightarrow> string \<Rightarrow> AuthResult" where
  "result ok msg =
     \<lparr>success = ok, message = msg, service = None, cookies = None, token = None\<rparr>"

text \<open>
  An optional string argument in a condition, \<^verbatim>\<open>if (service)\<close>: \<^verbatim>\<open>undefined\<close> and the
  empty string are falsy. In a template literal or as a property key, \<^verbatim>\<open>undefined\<close> reads
  as the string \<^verbatim>\<open>undefined\<close>.
\<close>

definition truthy :: "string option \<Rightarrow> string option" where
  "truthy s = (case s of None \<Rightarrow> None | Some x \<Rightarrow> if x = [] then None else Some x)"

definition js_string :: "string option \<Rightarrow> string" where
  "js_string s = (case s of None \<Rightarrow> ''undefined'' | Some x \<Rightarrow> x)"

text \<open>
  The interactive login is an external capability: what the browser session yields for a
  target URL, a user name and the cookies it is seeded with is a parameter, either a fault
  (launch failure, navigation error, timeout; the string is the fault as printed) or the
  cookies of the browsing context.
\<close>

datatype browser_outcome = BrowserFault string | BrowserCookies "Cookie list"

type_synonym interactive_login =
  "string \<Rightarrow> string option \<Rightarrow> Cookie list option \<Rightarrow> browser_outcome"

definition completeServiceAuth :: "string \<Rightarrow> Cookie list \<Rightarrow> AuthResult" where
  "completeServiceAuth svc oktaCookies =
     (case js_get SERVICE_CONFIGS svc of
        Undefined \<Rightarrow> result False (''Unknown service: '' @ svc)
      | _ \<Rightarrow>
          (result True (''Okta authenticated. Run service-specific auth for '' @ svc))
            \<lparr>service := Some svc, cookies := Some oktaCookies\<rparr>)"

definition targetUrl :: "string option \<Rightarrow> string" where
  "targetUrl svc =
     (case truthy svc of
        None \<Rightarrow> ''https://toasttab.okta.com''
      | Some s \<Rightarrow>
          (case js_get SERVICE_CONFIGS s of
             Own config \<Rightarrow> if url config = [] then ''https://toasttab.okta.com'' else url config
           | _ \<Rightarrow> ''https://toasttab.okta.com''))"

definition browserAuthenticate ::
  "interactive_login \<Rightarrow> world \<Rightarrow> string option \<Rightarrow> string option \<Rightarrow> AuthResult \<times> world" where
  "browserAuthenticate browser w svc username =
     (let w1 = w\<lparr>launches := Suc (launches w)\<rparr> in
      case browser (targetUrl svc) username (loadOktaCookies w1) of
        BrowserFault e \<Rightarrow> (result False (''Browser authentication failed: '' @ e), w1)
      | BrowserCookies cs \<Rightarrow>
          (let oktaCookies =
                 filter (\<lambda>c. str_includes (domain c) ''okta.com'' \<or>
                              str_includes (domain c) ''toasttab.com'') cs
           in case saveOktaCookies w1 oktaCookies of
                Inl (Error e) \<Rightarrow>
                  (result False (''Browser authentication failed: Error: '' @ e), w1)
              | Inr w2 \<Rightarrow>
                  (let done = (\<lambda>w'.
                         ((result True
                             (case truthy svc of
                                Some s \<Rightarrow> ''Authenticated with '' @ s
                              | None \<Rightarrow> ''Okta authentication successful''))
                            \<lparr>service := svc, cookies := Some oktaCookies\<rparr>, w'))
                   in case truthy svc of
                        None \<Rightarrow> done w2
                      | Some s \<Rightarrow>
                          (case js_get SERVICE_CONFIGS s of
                             Undefined \<Rightarrow> done w2
                           | config \<Rightarrow>
                               (let serviceDomain =
                                      (case config of
                                         Own c \<Rightarrow> cookieDomain c
                                       | _ \<Rightarrow> ''undefined'');
                                    serviceCookies =
                                      filter (\<lambda>c. str_includes (domain c) serviceDomain) cs
                                in case saveServiceCookies w2 s serviceCookies of
                                     Inl (Error e) \<Rightarrow>
                                       (result False
                                          (''Browser authentication failed: Error: '' @ e), w2)
                                   | Inr w3 \<Rightarrow> done w3)))))"

definition authenticate ::
  "interactive_login \<Rightarrow> world \<Rightarrow> string option \<Rightarrow> string option \<Rightarrow> bool
     \<Rightarrow> AuthResult \<times> world" where
  "authenticate browser w svc username forceRefresh =
     (if \<not> forceRefresh then
        (case loadOktaCookies w of
           None \<Rightarrow> browserAuthenticate browser w svc username
         | Some existingAuth \<Rightarrow>
             if validateOktaSession w existingAuth then
               (case truthy svc of
                  Some s \<Rightarrow> (completeServiceAuth s existingAuth, w)
                | None \<Rightarrow>
                    ((result True ''Okta authentication valid'')
                       \<lparr>cookies := Some existingAuth\<rparr>, w))
             else browserAuthenticate browser w svc username)
      else browserAuthenticate browser w svc username)"

text \<open>
  \<^verbatim>\<open>AuthStatus\<close>. The object \<^verbatim>\<open>status.services\<close> is an association list in insertion
  order; assigning a property replaces the value of a key already there and appends a new
  key.
\<close>

record ServiceStatus =
  authenticated :: bool
  hasServiceCookies :: bool

record AuthStatus =
  okta_authenticated :: bool
  services :: "(string \<times> ServiceStatus) list"

fun obj_set :: "(string \<times> 'a) list \<Rightarrow> string \<Rightarrow> 'a \<Rightarrow> (string \<times> 'a) list" where
  "obj_set [] k v = [(k, v)]"
| "obj_set ((k', v') # rest) k v =
     (if k' = k then (k, v) # rest else (k', v') # obj_set rest k v)"

text \<open>The loop of \<^verbatim>\<open>checkAuthStatus\<close> over \<^verbatim>\<open>Object.keys(SERVICE_CONFIGS)\<close>.\<close>

fun checkServices :: "world \<Rightarrow> string list \<Rightarrow> AuthStatus \<Rightarrow> AuthStatus" where
  "checkServices w [] status = status"
| "checkServices w (svc # rest) status =
     (let serviceCookies = loadServiceCookies w svc
      in checkServices w rest
           (status\<lparr>services :=
              obj_set (services status) svc
                \<lparr>authenticated = okta_authenticated status,
                 hasServiceCookies = (length serviceCookies > 0)\<rparr>\<rparr>))"

definition checkAuthStatus :: "world \<Rightarrow> AuthStatus" where
  "checkAuthStatus w =
     (let status = \<lparr>okta_authenticated = False, services = []\<rparr>;
          status1 =
            (case loadOktaCookies w of
               None \<Rightarrow> status
             | Some oktaCookies \<Rightarrow>
                 if validateOktaSession w oktaCookies
                 then status\<lparr>okta_authenticated := True\<rparr>
                 else status)
      in checkServices w (map fst SERVICE_CONFIGS) status1)"

text \<open>
  \<^verbatim>\<open>getServiceToken\<close> returns an untyped object; the fields it may carry are those of
  \<open>TokenResult\<close>. A field that is absent or \<^verbatim>\<open>undefined\<close> is \<open>None\<close>.
\<close>

record TokenResult =
  tr_success :: bool
  tr_message :: "string option"
  tr_service :: "string option"
  tr_token :: "string option"
  tr_cookies :: "Cookie list option"

definition isTokenCookie :: "Cookie \<Rightarrow> bool" where
  "isTokenCookie c =
     (str_includes (toLowerCase (name c)) ''token'' \<or>
      str_includes (toLowerCase (name c)) ''session'')"

definition getServiceToken :: "world \<Rightarrow> string \<Rightarrow> js_error + TokenResult" where
  "getServiceToken w svc =
     (case js_get SERVICE_CONFIGS svc of
        Undefined \<Rightarrow> Inl (Error (''Unknown service: '' @ svc))
      | config \<Rightarrow>
          (let serviceCookies = loadServiceCookies w svc in
           if length serviceCookies = 0 then
             Inr \<lparr>tr_success = False,
                  tr_message = Some (''No authentication found for '' @ svc),
                  tr_service = None, tr_token = None, tr_cookies = None\<rparr>
           else if (case config of Own c \<Rightarrow> sessionType c = token_session | _ \<Rightarrow> False) then
             (let tokenCookie = array_find isTokenCookie serviceCookies in
              Inr \<lparr>tr_success = True, tr_message = None, tr_service = Some svc,
                   tr_token = map_option val tokenCookie,
                   tr_cookies = Some serviceCookies\<rparr>)
           else
             Inr \<lparr>tr_success = True, tr_message = None, tr_service = Some svc,
                  tr_token = None, tr_cookies = Some serviceCookies\<rparr>))"

definition refreshSession :: "interactive_login \<Rightarrow> world \<Rightarrow> AuthResult \<times> world" where
  "refreshSession browser w =
     (case loadOktaCookies w of
        None \<Rightarrow> authenticate browser w None None True
      | Some oktaCookies \<Rightarrow>
          if \<not> validateOktaSession w oktaCookies then authenticate browser w None None True
          else ((result True ''Session still valid'')\<lparr>cookies := Some oktaCookies\<rparr>, w))"

definition legacyPaths :: "world \<Rightarrow> (string \<times> path) list" where
  "legacyPaths w =
     [(''datahub'', path_join (homedir w) [''.mcp-datahub'', ''cookies.json'']),
      (''splunk'', path_join (homedir w) [''.mcp-splunk'', ''cookies.json'']),
      (''zeppelin'', path_join (homedir w) [''.mcp-zeppelin'', ''cookies.json''])]"

text \<open>
  \<^verbatim>\<open>copySession\<close>. When \<^verbatim>\<open>legacyPaths[toService]\<close> is a property inherited from
  \<^verbatim>\<open>Object.prototype\<close>, \<^verbatim>\<open>path.dirname\<close> rejects the non-string argument before
  anything is written, and the handler of the \<^verbatim>\<open>try\<close> block only logs. A failed write
  is logged in the same way; the directory made before it stays.
\<close>

definition copySession :: "world \<Rightarrow> string \<Rightarrow> string \<Rightarrow> AuthResult \<times> world" where
  "copySession w fromService toService =
     (case loadOktaCookies w of
        None \<Rightarrow> (result False ''No Okta session found'', w)
      | Some oktaCookies \<Rightarrow>
          (let w' =
                 (case js_get (legacyPaths w) toService of
                    Undefined \<Rightarrow> w
                  | Inherited \<Rightarrow> w
                  | Own p \<Rightarrow>
                      (let w1 = fs_mkdir w (dirname p) in
                       case fs_writeFile w1 p oktaCookies of
                         Inl _ \<Rightarrow> w1
                       | Inr w2 \<Rightarrow> w2))
           in (result True (''Okta session copied to '' @ toService), w')))"

definition clearAuth :: "world \<Rightarrow> string option \<Rightarrow> AuthResult \<times> world" where
  "clearAuth w svc =
     (case truthy svc of
        None \<Rightarrow>
          (result True ''All authentication cleared'',
           ensureDirectories (fs_rm_recursive w (authDir w)))
      | Some s \<Rightarrow>
          if s = ''all'' then
            (result True ''All authentication cleared'',
             ensureDirectories (fs_rm_recursive w (authDir w)))
          else
            (result True (''Authentication cleared for '' @ s),
             fs_rm_force w (serviceFile w s)))"

section \<open>Tool surface\<close>

text \<open>
  The handler of \<^verbatim>\<open>CallToolRequestSchema\<close>: the arguments object with its optional
  fields, and the payload that is serialised into the text content of the reply. The
  \<^verbatim>\<open>catch\<close> block of the handler turns every thrown error into the payload
  \<^verbatim>\<open>{error: true, message}\<close>.
\<close>

record ToolArgs =
  arg_service :: "string option"
  arg_username :: "string option"
  arg_forceRefresh :: "bool option"
  arg_fromService :: "string option"
  arg_toService :: "string option"

datatype payload =
    AuthPayload AuthResult
  | StatusPayload AuthStatus
  | TokenPayload TokenResult
  | ServicesPayload "ServiceConfig list"
  | ErrorPayload bool string

definition callTool ::
  "interactive_login \<Rightarrow> world \<Rightarrow> string \<Rightarrow> ToolArgs \<Rightarrow> payload \<times> world" where
  "callTool browser w tool args =
     (if tool = ''authenticate'' then
        (let (r, w') = authenticate browser w (arg_service args) (arg_username args)
                         (case arg_forceRefresh args of None \<Rightarrow> False | Some b \<Rightarrow> b)
         in (AuthPayload r, w'))
      else if tool = ''check_auth_status'' then (StatusPayload (checkAuthStatus w), w)
      else if tool = ''get_service_token'' then
        (case getServiceToken w (js_string (arg_service args)) of
           Inl (Error m) \<Rightarrow> (ErrorPayload True m, w)
         | Inr t \<Rightarrow> (TokenPayload t, w))
      else if tool = ''refresh_session'' then
        (let (r, w') = refreshSession browser w in (AuthPayload r, w'))
      else if tool = ''copy_session'' then
        (let (r, w') = copySession w (js_string (arg_fromService args))
                         (js_string (arg_toService args))
         in (AuthPayload r, w'))
      else if tool = ''clear_auth'' then
        (let (r, w') = clearAuth w (arg_service args) in (AuthPayload r, w'))
      else if tool = ''list_services'' then (ServicesPayload listServices, w)
      else (ErrorPayload True (''Unknown tool: '' @ tool), w))"

section \<open>Example worlds\<close>

text \<open>
  Concrete inputs for the witnesses: a session cookie that expires at 2000, one that
  expires at 1000, the instant the clock of the example worlds shows, and worlds whose
  directories have been prepared by \<open>ensureDirectories\<close>.
\<close>

definition idx_cookie :: "real option \<Rightarrow> Cookie" where
  "idx_cookie e =
     \<lparr>name = ''idx'', val = ''s3cr3t'', domain = ''toasttab.okta.com'', cpath = ''/'',
      expires = e, httpOnly = True, secure = True, sameSite = ''Lax''\<rparr>"

definition named_cookie :: "string \<Rightarrow> string \<Rightarrow> Cookie" where
  "named_cookie n v =
     \<lparr>name = n, val = v, domain = ''toast.splunkcloud.com'', cpath = ''/'',
      expires = None, httpOnly = False, secure = True, sameSite = ''Lax''\<rparr>"

definition empty_world :: world where
  "empty_world =
     ensureDirectories
       \<lparr>homedir = [''home'', ''dev''], now = 1000, files = Map.empty, modes = Map.empty,
        dirs = {[], [''home''], [''home'', ''dev'']}, launches = 0\<rparr>"

definition okta_world :: "Cookie list \<Rightarrow> world" where
  "okta_world cs = empty_world\<lparr>files := [oktaCookieFile empty_world \<mapsto> cs]\<rparr>"

definition no_display :: interactive_login where
  "no_display target username seed = BrowserFault ''Error: no display''"

definition store_world :: "Cookie list option \<Rightarrow> (string \<times> Cookie list) list \<Rightarrow> world" where
  "store_world okta svcs =
     empty_world
       \<lparr>files := (\<lambda>p. if p = oktaCookieFile empty_world then okta
                      else map_of (map (\<lambda>(s, cs). (serviceFile empty_world s, cs)) svcs) p)\<rparr>"

section \<open>Arrays and strings\<close>

lemma array_find_None_iff: "array_find p xs = None \<longleftrightarrow> (\<forall>x \<in> set xs. \<not> p x)"
  by (induction xs) auto

lemma array_find_first:
  "array_find p xs = Some x \<longleftrightarrow>
     (\<exists>pre post. xs = pre @ x # post \<and> p x \<and> (\<forall>d \<in> set pre. \<not> p d))"
  (is "?L xs \<longleftrightarrow> ?R xs")
proof (induction xs)
  case Nil
  then show ?case by simp
next
  case (Cons a xs)
  show ?case
  proof (cases "p a")
    case True
    have "?R (a # xs) \<longleftrightarrow> a = x"
    proof
      assume "?R (a # xs)"
      then obtain pre post where h: "a # xs = pre @ x # post" "\<forall>d \<in> set pre. \<not> p d"
        by blast
      with True show "a = x" by (cases pre) auto
    next
      assume "a = x"
      with True have "a # xs = [] @ x # xs \<and> p x \<and> (\<forall>d \<in> set []. \<not> p d)" by simp
      then show "?R (a # xs)" by blast
    qed
    with True show ?thesis by simp
  next
    case False
    have "?R (a # xs) \<longleftrightarrow> ?R xs"
    proof
      assume "?R (a # xs)"
      then obtain pre post
        where h: "a # xs = pre @ x # post" "p x" "\<forall>d \<in> set pre. \<not> p d"
        by blast
      show "?R xs"
      proof (cases pre)
        case Nil
        with h False show ?thesis by simp
      next
        case (Cons b pre')
        with h have "xs = pre' @ x # post \<and> p x \<and> (\<forall>d \<in> set pre'. \<not> p d)" by simp
        then show ?thesis by blast
      qed
    next
      assume "?R xs"
      then obtain pre post where h: "xs = pre @ x # post" "p x" "\<forall>d \<in> set pre. \<not> p d"
        by blast
      with False
      have "a # xs = (a # pre) @ x # post \<and> p x \<and> (\<forall>d \<in> set (a # pre). \<not> p d)"
        by simp
      then show "?R (a # xs)" by blast
    qed
    with False Cons.IH show ?thesis by simp
  qed
qed

lemma str_includes_iff: "str_includes s sub \<longleftrightarrow> (\<exists>ps ss. s = ps @ sub @ ss)"
proof (induction s)
  case Nil
  then show ?case by auto
next
  case (Cons c s)
  have "(\<exists>ps ss. c # s = ps @ sub @ ss) \<longleftrightarrow>
        prefix sub (c # s) \<or> (\<exists>ps ss. s = ps @ sub @ ss)"
    using sublist_Cons_right [of sub c s] by (simp add: sublist_def)
  with Cons.IH show ?case by simp
qed

section \<open>Paths of the store\<close>

lemma serviceFile_neq_oktaCookieFile: "serviceFile w s \<noteq> oktaCookieFile w"
  by (simp add: serviceFile_def oktaCookieFile_def serviceCookieDir_def authDir_def
      path_join_def)

lemma serviceFile_inj: "serviceFile w s = serviceFile w s' \<longleftrightarrow> s = s'"
  by (simp add: serviceFile_def serviceCookieDir_def authDir_def path_join_def)

lemma empty_world_simps:
  "homedir empty_world = [''home'', ''dev'']" "now empty_world = 1000"
  "files empty_world = Map.empty" "launches empty_world = 0"
  by (simp_all add: empty_world_def ensureDirectories_def fs_mkdir_def)

lemma okta_world_load: "loadOktaCookies (okta_world cs) = Some cs"
  by (simp add: okta_world_def loadOktaCookies_def fs_readJson_def oktaCookieFile_def
      authDir_def path_join_def empty_world_simps)

lemma okta_world_now: "now (okta_world cs) = 1000"
  by (simp add: okta_world_def empty_world_simps)

section \<open>Session validation\<close>

text \<open>
  C1. As stated the claim fails on the boundary: the source compares with \<^verbatim>\<open><\<close>, so a
  marker whose expiry equals the current instant is still accepted.
\<close>

theorem validateOktaSession_expiry_equal_now:
  "array_find isSessionCookie [idx_cookie (Some 1000)] = Some (idx_cookie (Some 1000))
   \<and> expires (idx_cookie (Some 1000)) = Some 1000
   \<and> (1000 :: real) \<le> now (okta_world [idx_cookie (Some 1000)])
   \<and> validateOktaSession (okta_world [idx_cookie (Some 1000)]) [idx_cookie (Some 1000)]"
  by (simp add: validateOktaSession_def isSessionCookie_def idx_cookie_def okta_world_now)

text \<open>
  The truthiness test reads the expiry 0 like an absent one: such a marker is accepted at
  any later instant.
\<close>

lemma validateOktaSession_expiry_zero:
  "validateOktaSession (okta_world [idx_cookie (Some 0)]) [idx_cookie (Some 0)]"
  by (simp add: validateOktaSession_def isSessionCookie_def idx_cookie_def)

text \<open>
  C1, amended. For a credential set whose first session-marker cookie (named
  \<^verbatim>\<open>JSESSIONID\<close> or \<^verbatim>\<open>idx\<close>) does not carry the expiry 0, the set is valid exactly when
  such a marker exists and the first one carries no expiry or an expiry that is not
  strictly before the current instant.
\<close>

theorem validateOktaSession_first_marker:
  assumes "\<forall>c. array_find isSessionCookie S = Some c \<longrightarrow> expires c \<noteq> Some 0"
  shows "validateOktaSession w S \<longleftrightarrow>
     (\<exists>pre c post. S = pre @ c # post \<and> isSessionCookie c
        \<and> (\<forall>d \<in> set pre. \<not> isSessionCookie d)
        \<and> (expires c = None \<or> (\<exists>e. expires c = Some e \<and> \<not> e < now w)))"
proof (cases "array_find isSessionCookie S")
  case None
  then have "\<forall>x \<in> set S. \<not> isSessionCookie x" by (simp add: array_find_None_iff)
  then have "\<not> (\<exists>pre c post. S = pre @ c # post \<and> isSessionCookie c)" by auto
  with None show ?thesis by (auto simp: validateOktaSession_def)
next
  case (Some m)
  then obtain pre post where m: "S = pre @ m # post" "isSessionCookie m"
    "\<forall>d \<in> set pre. \<not> isSessionCookie d"
    by (auto simp: array_find_first)
  from Some assms have nz: "expires m \<noteq> Some 0" by simp
  have valid: "validateOktaSession w S \<longleftrightarrow>
      (expires m = None \<or> (\<exists>e. expires m = Some e \<and> \<not> e < now w))"
    using Some nz by (auto simp: validateOktaSession_def split: option.splits)
  show ?thesis
  proof
    assume "validateOktaSession w S"
    with valid m show "\<exists>pre c post. S = pre @ c # post \<and> isSessionCookie c
        \<and> (\<forall>d \<in> set pre. \<not> isSessionCookie d)
        \<and> (expires c = None \<or> (\<exists>e. expires c = Some e \<and> \<not> e < now w))"
      by blast
  next
    assume "\<exists>pre c post. S = pre @ c # post \<and> isSessionCookie c
        \<and> (\<forall>d \<in> set pre. \<not> isSessionCookie d)
        \<and> (expires c = None \<or> (\<exists>e. expires c = Some e \<and> \<not> e < now w))"
    then obtain pre' c post' where c: "S = pre' @ c # post'" "isSessionCookie c"
      "\<forall>d \<in> set pre'. \<not> isSessionCookie d"
      "expires c = None \<or> (\<exists>e. expires c = Some e \<and> \<not> e < now w)"
      by blast
    then have "array_find isSessionCookie S = Some c"
      unfolding array_find_first by blast
    with Some have "c = m" by simp
    with c valid show "validateOktaSession w S" by simp
  qed
qed

theorem validateOktaSession_first_marker_witness:
  "array_find isSessionCookie [named_cookie ''csrf'' ''x'', idx_cookie (Some 2000)]
     = Some (idx_cookie (Some 2000))
   \<and> expires (idx_cookie (Some 2000)) \<noteq> Some 0
   \<and> validateOktaSession (okta_world []) [named_cookie ''csrf'' ''x'', idx_cookie (Some 2000)]
   \<and> \<not> validateOktaSession (okta_world []) [named_cookie ''csrf'' ''x'', idx_cookie (Some 999)]
   \<and> \<not> validateOktaSession (okta_world []) [named_cookie ''csrf'' ''x'']"
proof -
  let ?pre = "[named_cookie ''csrf'' ''x'']"
  have find: "\<And>e. array_find isSessionCookie (?pre @ [idx_cookie e]) = Some (idx_cookie e)"
    by (simp add: isSessionCookie_def idx_cookie_def named_cookie_def)
  have h1: "\<forall>c. array_find isSessionCookie (?pre @ [idx_cookie (Some 2000)]) = Some c
              \<longrightarrow> expires c \<noteq> Some 0"
    unfolding find by (simp add: idx_cookie_def)
  have h2: "\<forall>c. array_find isSessionCookie (?pre @ [idx_cookie (Some 999)]) = Some c
              \<longrightarrow> expires c \<noteq> Some 0"
    unfolding find by (simp add: idx_cookie_def)
  have h3: "\<forall>c. array_find isSessionCookie ?pre = Some c \<longrightarrow> expires c \<noteq> Some 0"
    by (simp add: isSessionCookie_def named_cookie_def)
  have a: "validateOktaSession (okta_world []) (?pre @ [idx_cookie (Some 2000)])"
    unfolding validateOktaSession_first_marker [OF h1]
    by (rule exI [of _ ?pre], rule exI [of _ "idx_cookie (Some 2000)"], rule exI [of _ "[]"])
       (simp add: isSessionCookie_def idx_cookie_def named_cookie_def okta_world_now)
  have b: "\<not> validateOktaSession (okta_world []) (?pre @ [idx_cookie (Some 999)])"
  proof
    assume "validateOktaSession (okta_world []) (?pre @ [idx_cookie (Some 999)])"
    then obtain pre c post where
      c: "?pre @ [idx_cookie (Some 999)] = pre @ c # post" "isSessionCookie c"
         "expires c = None \<or> (\<exists>e. expires c = Some e \<and> \<not> e < now (okta_world []))"
      unfolding validateOktaSession_first_marker [OF h2] by blast
    from c(1) have "c \<in> set (?pre @ [idx_cookie (Some 999)])" by simp
    with c(2) have "c = idx_cookie (Some 999)"
      by (auto simp: isSessionCookie_def named_cookie_def)
    with c(3) show False by (simp add: idx_cookie_def okta_world_now)
  qed
  have c: "\<not> validateOktaSession (okta_world []) ?pre"
    unfolding validateOktaSession_first_marker [OF h3]
    by (auto simp: Cons_eq_append_conv isSessionCookie_def named_cookie_def)
  have d: "expires (idx_cookie (Some 2000)) \<noteq> Some 0" by (simp add: idx_cookie_def)
  from find [of "Some 2000"] d a b c show ?thesis by simp
qed

section \<open>The credential store\<close>

lemma dirname_oktaCookieFile: "dirname (oktaCookieFile w) = authDir w"
  by (simp add: dirname_def oktaCookieFile_def path_join_def)

lemma dirname_serviceFile: "dirname (serviceFile w s) = serviceCookieDir w"
  by (simp add: dirname_def serviceFile_def path_join_def)

lemma empty_world_dirs:
  "authDir empty_world \<in> dirs empty_world" "serviceCookieDir empty_world \<in> dirs empty_world"
  by (simp_all add: empty_world_def ensureDirectories_def fs_mkdir_def authDir_def
      serviceCookieDir_def path_join_def)

lemma store_world_okta: "loadOktaCookies (store_world okta svcs) = okta"
  by (cases okta)
     (simp_all add: store_world_def loadOktaCookies_def fs_readJson_def oktaCookieFile_def
        authDir_def path_join_def empty_world_simps)

lemma map_of_serviceFile:
  "map_of (map (\<lambda>(s, cs). (serviceFile w s, cs)) svcs) (serviceFile w k) = map_of svcs k"
  by (induction svcs) (auto simp: serviceFile_inj)

lemma store_world_service:
  "loadServiceCookies (store_world okta svcs) k =
     (case map_of svcs k of None \<Rightarrow> [] | Some cs \<Rightarrow> cs)"
proof -
  have paths: "serviceFile (store_world okta svcs) k = serviceFile empty_world k"
    by (simp add: store_world_def serviceFile_def serviceCookieDir_def authDir_def)
  have "files (store_world okta svcs) (serviceFile empty_world k) = map_of svcs k"
    by (simp add: store_world_def serviceFile_neq_oktaCookieFile map_of_serviceFile)
  with paths show ?thesis
    by (simp add: loadServiceCookies_def fs_readJson_def split: option.splits)
qed

text \<open>
  C8. A save that returns, followed by a load of the same scope, gives back the saved
  credentials in the same order, for the identity-provider scope and for every service
  scope. The save does return whenever the directory of the record exists, as it does
  after \<open>ensureDirectories\<close>: for the identity-provider scope and for the scope of every
  catalog key.
\<close>

theorem save_load_roundtrip:
  "(authDir w \<in> dirs w \<longrightarrow> (\<exists>w'. saveOktaCookies w cs = Inr w'))
   \<and> (serviceCookieDir w \<in> dirs w \<and> s \<in> set getServiceNames \<longrightarrow>
        (\<exists>w'. saveServiceCookies w s cs = Inr w'))
   \<and> (\<forall>w'. saveOktaCookies w cs = Inr w' \<longrightarrow> loadOktaCookies w' = Some cs)
   \<and> (\<forall>w'. saveServiceCookies w s cs = Inr w' \<longrightarrow> loadServiceCookies w' s = cs)"
proof -
  have a: "authDir w \<in> dirs w \<longrightarrow> (\<exists>w'. saveOktaCookies w cs = Inr w')"
    by (simp add: saveOktaCookies_def fs_writeFile_def dirname_oktaCookieFile)
  have b: "serviceCookieDir w \<in> dirs w \<and> s \<in> set getServiceNames \<longrightarrow>
      (\<exists>w'. saveServiceCookies w s cs = Inr w')"
    by (simp add: saveServiceCookies_def fs_writeFile_def dirname_serviceFile)
  have c: "loadOktaCookies w' = Some cs" if "saveOktaCookies w cs = Inr w'" for w'
  proof -
    from that have "w' = fs_chmod (w\<lparr>files := (files w)(oktaCookieFile w \<mapsto> cs)\<rparr>)
        (oktaCookieFile w) 384"
      by (auto simp: saveOktaCookies_def fs_writeFile_def split: if_splits)
    then show ?thesis
      by (simp add: loadOktaCookies_def fs_readJson_def fs_chmod_def oktaCookieFile_def
          authDir_def)
  qed
  have d: "loadServiceCookies w' s = cs" if "saveServiceCookies w s cs = Inr w'" for w'
  proof -
    from that have "w' = fs_chmod (w\<lparr>files := (files w)(serviceFile w s \<mapsto> cs)\<rparr>)
        (serviceFile w s) 384"
      by (auto simp: saveServiceCookies_def fs_writeFile_def split: if_splits)
    then show ?thesis
      by (simp add: loadServiceCookies_def fs_readJson_def fs_chmod_def serviceFile_def
          serviceCookieDir_def authDir_def)
  qed
  from a b c d show ?thesis by blast
qed

theorem save_load_roundtrip_witness:
  "authDir empty_world \<in> dirs empty_world
   \<and> serviceCookieDir empty_world \<in> dirs empty_world
   \<and> ''splunk'' \<in> set getServiceNames
   \<and> (\<exists>w'. saveOktaCookies empty_world [idx_cookie None, named_cookie ''sid'' ''1''] = Inr w'
          \<and> loadOktaCookies w' = Some [idx_cookie None, named_cookie ''sid'' ''1''])
   \<and> (\<exists>w'. saveServiceCookies empty_world ''splunk''
             [idx_cookie None, named_cookie ''sid'' ''1''] = Inr w'
          \<and> loadServiceCookies w' ''splunk'' = [idx_cookie None, named_cookie ''sid'' ''1''])"
  using save_load_roundtrip
    [of empty_world "[idx_cookie None, named_cookie ''sid'' ''1'']" "''splunk''"]
    empty_world_dirs
  by (auto simp: getServiceNames_def SERVICE_CONFIGS_def)

text \<open>
  C7. For a catalog key \<open>s\<close>, \<^verbatim>\<open>clearAuth(s)\<close> succeeds in every store state, with or
  without a record for \<open>s\<close>; afterwards the files are those of before without the record
  of scope \<open>s\<close>, scope \<open>s\<close> loads as empty, and the identity-provider scope and every other
  catalog scope load what they loaded before.
\<close>

theorem clearAuth_single_scope:
  assumes "s \<in> set getServiceNames"
  shows "fst (clearAuth w (Some s)) = result True (''Authentication cleared for '' @ s)
   \<and> files (snd (clearAuth w (Some s))) = (files w)(serviceFile w s := None)
   \<and> loadServiceCookies (snd (clearAuth w (Some s))) s = []
   \<and> loadOktaCookies (snd (clearAuth w (Some s))) = loadOktaCookies w
   \<and> (\<forall>s' \<in> set getServiceNames. s' \<noteq> s \<longrightarrow>
         loadServiceCookies (snd (clearAuth w (Some s))) s' = loadServiceCookies w s')"
proof -
  from assms have s: "s \<noteq> []" "s \<noteq> ''all''"
    by (auto simp: getServiceNames_def SERVICE_CONFIGS_def)
  then have run: "clearAuth w (Some s) =
      (result True (''Authentication cleared for '' @ s), fs_rm_force w (serviceFile w s))"
    by (simp add: clearAuth_def truthy_def)
  have okta: "oktaCookieFile (fs_rm_force w (serviceFile w s)) = oktaCookieFile w"
    by (simp add: oktaCookieFile_def authDir_def fs_rm_force_def)
  have svc: "serviceFile (fs_rm_force w (serviceFile w s)) k = serviceFile w k" for k
    by (simp add: serviceFile_def serviceCookieDir_def authDir_def fs_rm_force_def)
  have fl: "files (fs_rm_force w (serviceFile w s)) = (files w)(serviceFile w s := None)"
    by (simp add: fs_rm_force_def)
  have gone: "loadServiceCookies (fs_rm_force w (serviceFile w s)) s = []"
    by (simp add: loadServiceCookies_def fs_readJson_def svc fl)
  have keep_okta: "loadOktaCookies (fs_rm_force w (serviceFile w s)) = loadOktaCookies w"
    using serviceFile_neq_oktaCookieFile [of w s]
    by (simp add: loadOktaCookies_def fs_readJson_def okta fl)
  have keep_svc: "loadServiceCookies (fs_rm_force w (serviceFile w s)) s'
      = loadServiceCookies w s'" if "s' \<noteq> s" for s'
    using that by (simp add: loadServiceCookies_def fs_readJson_def svc fl serviceFile_inj)
  from run fl gone keep_okta keep_svc show ?thesis by simp
qed

theorem clearAuth_single_scope_witness:
  "''datahub'' \<in> set getServiceNames
   \<and> success (fst (clearAuth (store_world (Some [idx_cookie None])
         [(''datahub'', [named_cookie ''sid'' ''1'']),
          (''splunk'', [named_cookie ''token'' ''2''])]) (Some ''datahub'')))
   \<and> loadServiceCookies (snd (clearAuth (store_world (Some [idx_cookie None])
         [(''datahub'', [named_cookie ''sid'' ''1'']),
          (''splunk'', [named_cookie ''token'' ''2''])]) (Some ''datahub''))) ''datahub'' = []
   \<and> loadServiceCookies (snd (clearAuth (store_world (Some [idx_cookie None])
         [(''datahub'', [named_cookie ''sid'' ''1'']),
          (''splunk'', [named_cookie ''token'' ''2''])]) (Some ''datahub''))) ''splunk''
       = [named_cookie ''token'' ''2'']
   \<and> loadOktaCookies (snd (clearAuth (store_world (Some [idx_cookie None])
         [(''datahub'', [named_cookie ''sid'' ''1'']),
          (''splunk'', [named_cookie ''token'' ''2''])]) (Some ''datahub'')))
       = Some [idx_cookie None]
   \<and> success (fst (clearAuth (store_world None []) (Some ''datahub'')))
   \<and> files (snd (clearAuth (store_world None []) (Some ''datahub'')))
       = files (store_world None [])"
proof -
  let ?w = "store_world (Some [idx_cookie None])
         [(''datahub'', [named_cookie ''sid'' ''1'']),
          (''splunk'', [named_cookie ''token'' ''2''])]"
  have k: "''datahub'' \<in> set getServiceNames" "''splunk'' \<in> set getServiceNames"
    by (simp_all add: getServiceNames_def SERVICE_CONFIGS_def)
  note full = clearAuth_single_scope [OF k(1), of ?w]
  note none = clearAuth_single_scope [OF k(1), of "store_world None []"]
  have absent: "files (store_world None []) (serviceFile (store_world None []) ''datahub'')
      = None"
    by (simp add: store_world_def)
  from full have "loadServiceCookies (snd (clearAuth ?w (Some ''datahub''))) ''splunk''
      = loadServiceCookies ?w ''splunk''"
    using k(2) by auto
  then have splunk: "loadServiceCookies (snd (clearAuth ?w (Some ''datahub''))) ''splunk''
      = [named_cookie ''token'' ''2'']"
    by (simp add: store_world_service)
  from full have okta: "loadOktaCookies (snd (clearAuth ?w (Some ''datahub'')))
      = Some [idx_cookie None]"
    by (simp add: store_world_okta)
  from none absent have same: "files (snd (clearAuth (store_world None []) (Some ''datahub'')))
      = files (store_world None [])"
    by (simp add: fun_upd_idem)
  from k(1) full none splunk okta same show ?thesis
    by (simp add: result_def)
qed

section \<open>Copying the session\<close>

text \<open>
  C5. With no identity-provider credential set stored, \<^verbatim>\<open>copySession\<close> returns the
  failure result \<^verbatim>\<open>No Okta session found\<close> and leaves the world as it was: no file, no
  directory and no permission changes, for every source and destination key.
\<close>

theorem copySession_without_session:
  assumes "loadOktaCookies w = None"
  shows "copySession w fromService toService = (result False ''No Okta session found'', w)"
  using assms by (simp add: copySession_def)

theorem copySession_without_session_witness:
  "loadOktaCookies (store_world None []) = None
   \<and> copySession (store_world None []) ''datahub'' ''splunk''
       = (result False ''No Okta session found'', store_world None [])"
  using copySession_without_session [of "store_world None []" "''datahub''" "''splunk''"]
  by (simp add: store_world_okta)

text \<open>
  C9. With an identity-provider credential set stored and a destination key other than
  \<^verbatim>\<open>datahub\<close>, \<^verbatim>\<open>splunk\<close> and \<^verbatim>\<open>zeppelin\<close> (catalog key or not), \<^verbatim>\<open>copySession\<close>
  reports success with the message that the session was copied and leaves the world as it
  was. For every destination, the outcome is the same whatever the source key is.
\<close>

theorem copySession_unmapped_destination:
  "(loadOktaCookies w = Some oktaCookies
      \<and> toService \<notin> {''datahub'', ''splunk'', ''zeppelin''} \<longrightarrow>
    copySession w fromService toService
      = (result True (''Okta session copied to '' @ toService), w))
   \<and> copySession w fromService' toService' = copySession w fromService toService'"
proof -
  have "js_get (legacyPaths w) toService \<in> {Inherited, Undefined}"
    if "toService \<notin> {''datahub'', ''splunk'', ''zeppelin''}"
    using that by (simp add: js_get_def legacyPaths_def)
  then have "copySession w fromService toService
      = (result True (''Okta session copied to '' @ toService), w)"
    if "loadOktaCookies w = Some oktaCookies"
       "toService \<notin> {''datahub'', ''splunk'', ''zeppelin''}"
    using that by (auto simp: copySession_def)
  moreover have "copySession w fromService' toService' = copySession w fromService toService'"
    by (simp add: copySession_def)
  ultimately show ?thesis by blast
qed

theorem copySession_unmapped_destination_witness:
  "loadOktaCookies (store_world (Some [idx_cookie None]) []) = Some [idx_cookie None]
   \<and> copySession (store_world (Some [idx_cookie None]) []) ''datahub'' ''jira''
       = (result True ''Okta session copied to jira'', store_world (Some [idx_cookie None]) [])
   \<and> copySession (store_world (Some [idx_cookie None]) []) ''nowhere'' ''jira''
       = (result True ''Okta session copied to jira'', store_world (Some [idx_cookie None]) [])"
proof -
  let ?w = "store_world (Some [idx_cookie None]) []"
  have l: "loadOktaCookies ?w = Some [idx_cookie None]" by (simp add: store_world_okta)
  have n: "''jira'' \<notin> {''datahub'', ''splunk'', ''zeppelin''}" by simp
  from copySession_unmapped_destination
         [of ?w "[idx_cookie None]" "''jira''" "''datahub''" "''nowhere''" "''jira''"] l n
  show ?thesis by simp
qed

section \<open>Reusing a valid session\<close>

lemma catalog_keys: "getServiceNames = [''datahub'', ''splunk'', ''zeppelin'']"
  by (simp add: getServiceNames_def SERVICE_CONFIGS_def)

lemma js_get_catalog_key:
  "s \<in> set getServiceNames \<Longrightarrow> \<exists>cfg. js_get SERVICE_CONFIGS s = Own cfg"
  by (auto simp: catalog_keys js_get_def SERVICE_CONFIGS_def)

lemma authenticate_valid_session:
  assumes "loadOktaCookies w = Some existing" and "validateOktaSession w existing"
  shows "authenticate browser w svc username False =
     (case truthy svc of
        Some s \<Rightarrow> (completeServiceAuth s existing, w)
      | None \<Rightarrow> ((result True ''Okta authentication valid'')\<lparr>cookies := Some existing\<rparr>, w))"
  using assms by (simp add: authenticate_def)

text \<open>
  C2. As stated the claim fails for a service key that the catalog does not know: the
  browser stays closed, but \<^verbatim>\<open>completeServiceAuth\<close> answers with a failure result.
\<close>

theorem authenticate_unknown_service_fails:
  "loadOktaCookies (store_world (Some [idx_cookie None]) []) = Some [idx_cookie None]
   \<and> validateOktaSession (store_world (Some [idx_cookie None]) []) [idx_cookie None]
   \<and> authenticate no_display (store_world (Some [idx_cookie None]) []) (Some ''jira'') None False
       = (result False ''Unknown service: jira'', store_world (Some [idx_cookie None]) [])"
proof -
  let ?w = "store_world (Some [idx_cookie None]) []"
  have l: "loadOktaCookies ?w = Some [idx_cookie None]" by (simp add: store_world_okta)
  have v: "validateOktaSession ?w [idx_cookie None]"
    by (simp add: validateOktaSession_def isSessionCookie_def idx_cookie_def)
  have "js_get SERVICE_CONFIGS ''jira'' = Undefined"
    by (simp add: js_get_def SERVICE_CONFIGS_def objectPrototypeProps_def)
  then have "authenticate no_display ?w (Some ''jira'') None False
      = (result False ''Unknown service: jira'', ?w)"
    by (simp add: authenticate_valid_session [OF l v] truthy_def completeServiceAuth_def)
  with l v show ?thesis by simp
qed

text \<open>
  C2, amended. With \<^verbatim>\<open>forceRefresh\<close> false and a stored identity-provider credential set
  that the validator accepts, \<^verbatim>\<open>authenticate\<close> never launches the browser, whatever the
  service key and the user name are: the world is unchanged and the outcome does not
  depend on the interactive login. For a catalog key it returns success, with the message
  that the service-specific step can be run, the key and the existing set; without a key
  (or with the empty string) it returns success with the existing set; for a key that the
  lookup in the catalog does not resolve it returns the failure \<^verbatim>\<open>Unknown service\<close>.
\<close>

theorem authenticate_reuses_valid_session:
  assumes "loadOktaCookies w = Some existing" and "validateOktaSession w existing"
  shows "snd (authenticate browser w svc username False) = w
   \<and> launches (snd (authenticate browser w svc username False)) = launches w
   \<and> authenticate browser' w svc username' False = authenticate browser w svc username False
   \<and> (\<forall>s \<in> set getServiceNames.
         fst (authenticate browser w (Some s) username False)
           = (result True (''Okta authenticated. Run service-specific auth for '' @ s))
               \<lparr>service := Some s, cookies := Some existing\<rparr>)
   \<and> (svc = None \<or> svc = Some [] \<longrightarrow>
         fst (authenticate browser w svc username False)
           = (result True ''Okta authentication valid'')\<lparr>cookies := Some existing\<rparr>)
   \<and> (\<forall>s. s \<noteq> [] \<and> js_get SERVICE_CONFIGS s = Undefined \<longrightarrow>
         fst (authenticate browser w (Some s) username False)
           = result False (''Unknown service: '' @ s))"
proof -
  note run = authenticate_valid_session [OF assms]
  have unchanged: "snd (authenticate browser w svc username False) = w"
    by (simp add: run split: option.splits)
  have no_browser:
    "authenticate browser' w svc username' False = authenticate browser w svc username False"
    by (simp add: run)
  have known: "fst (authenticate browser w (Some s) username False)
      = (result True (''Okta authenticated. Run service-specific auth for '' @ s))
          \<lparr>service := Some s, cookies := Some existing\<rparr>"
    if "s \<in> set getServiceNames" for s
  proof -
    from that have "s \<noteq> []" by (auto simp: catalog_keys)
    moreover from that obtain cfg where "js_get SERVICE_CONFIGS s = Own cfg"
      using js_get_catalog_key by blast
    ultimately show ?thesis by (simp add: run truthy_def completeServiceAuth_def)
  qed
  have no_key: "fst (authenticate browser w svc username False)
      = (result True ''Okta authentication valid'')\<lparr>cookies := Some existing\<rparr>"
    if "svc = None \<or> svc = Some []"
    using that by (auto simp: run truthy_def)
  have unknown: "fst (authenticate browser w (Some s) username False)
      = result False (''Unknown service: '' @ s)"
    if "s \<noteq> []" "js_get SERVICE_CONFIGS s = Undefined" for s
    using that by (simp add: run truthy_def completeServiceAuth_def)
  from unchanged no_browser known no_key unknown show ?thesis by simp
qed

theorem authenticate_reuses_valid_session_witness:
  "loadOktaCookies (store_world (Some [idx_cookie (Some 2000)]) []) = Some [idx_cookie (Some 2000)]
   \<and> validateOktaSession (store_world (Some [idx_cookie (Some 2000)]) []) [idx_cookie (Some 2000)]
   \<and> authenticate no_display (store_world (Some [idx_cookie (Some 2000)]) [])
         (Some ''splunk'') (Some ''dev@example.com'') False
       = ((result True ''Okta authenticated. Run service-specific auth for splunk'')
            \<lparr>service := Some ''splunk'', cookies := Some [idx_cookie (Some 2000)]\<rparr>,
          store_world (Some [idx_cookie (Some 2000)]) [])
   \<and> authenticate no_display (store_world (Some [idx_cookie (Some 2000)]) []) None None False
       = ((result True ''Okta authentication valid'')
            \<lparr>cookies := Some [idx_cookie (Some 2000)]\<rparr>,
          store_world (Some [idx_cookie (Some 2000)]) [])
   \<and> launches (snd (authenticate no_display (store_world (Some [idx_cookie (Some 2000)]) [])
         (Some ''splunk'') None True))
       = Suc (launches (store_world (Some [idx_cookie (Some 2000)]) []))"
proof -
  let ?cs = "[idx_cookie (Some 2000)]"
  let ?w = "store_world (Some ?cs) []"
  have l: "loadOktaCookies ?w = Some ?cs" by (simp add: store_world_okta)
  have v: "validateOktaSession ?w ?cs"
    by (simp add: validateOktaSession_def isSessionCookie_def idx_cookie_def store_world_def
        empty_world_simps)
  have k: "''splunk'' \<in> set getServiceNames" by (simp add: catalog_keys)
  note reuse = authenticate_reuses_valid_session [OF l v]
  from reuse [of no_display "Some ''splunk''" "Some ''dev@example.com''"] k
  have a: "authenticate no_display ?w (Some ''splunk'') (Some ''dev@example.com'') False
      = ((result True ''Okta authenticated. Run service-specific auth for splunk'')
            \<lparr>service := Some ''splunk'', cookies := Some ?cs\<rparr>, ?w)"
    by (auto simp: prod_eq_iff)
  from reuse [of no_display None None]
  have b: "authenticate no_display ?w None None False
      = ((result True ''Okta authentication valid'')\<lparr>cookies := Some ?cs\<rparr>, ?w)"
    by (auto simp: prod_eq_iff)
  have c: "launches (snd (authenticate no_display ?w (Some ''splunk'') None True))
      = Suc (launches ?w)"
    by (simp add: authenticate_def browserAuthenticate_def no_display_def Let_def)
  from l v a b c show ?thesis by simp
qed

section \<open>The status snapshot\<close>

lemma obj_set_fresh: "k \<notin> fst ` set obj \<Longrightarrow> obj_set obj k v = obj @ [(k, v)]"
  by (induction obj) auto

lemma checkServices_fresh:
  "distinct ks \<Longrightarrow> set ks \<inter> fst ` set (services st) = {} \<Longrightarrow>
   checkServices w ks st =
     st\<lparr>services := services st @
          map (\<lambda>k. (k, \<lparr>authenticated = okta_authenticated st,
                         hasServiceCookies = (loadServiceCookies w k \<noteq> [])\<rparr>)) ks\<rparr>"
proof (induction ks arbitrary: st)
  case Nil
  then show ?case by simp
next
  case (Cons k ks)
  let ?v = "\<lparr>authenticated = okta_authenticated st,
             hasServiceCookies = (loadServiceCookies w k \<noteq> [])\<rparr>"
  let ?st = "st\<lparr>services := services st @ [(k, ?v)]\<rparr>"
  from Cons.prems have fresh: "k \<notin> fst ` set (services st)" by auto
  from Cons.prems have "distinct ks" "set ks \<inter> fst ` set (services ?st) = {}" by auto
  then have "checkServices w ks ?st =
     ?st\<lparr>services := services ?st @
          map (\<lambda>k. (k, \<lparr>authenticated = okta_authenticated ?st,
                         hasServiceCookies = (loadServiceCookies w k \<noteq> [])\<rparr>)) ks\<rparr>"
    by (rule Cons.IH)
  with fresh show ?case by (simp add: obj_set_fresh Let_def)
qed

lemma checkAuthStatus_eq:
  "checkAuthStatus w =
     \<lparr>okta_authenticated =
        (case loadOktaCookies w of None \<Rightarrow> False | Some cs \<Rightarrow> validateOktaSession w cs),
      services =
        map (\<lambda>k. (k, \<lparr>authenticated =
                         (case loadOktaCookies w of None \<Rightarrow> False
                          | Some cs \<Rightarrow> validateOktaSession w cs),
                       hasServiceCookies = (loadServiceCookies w k \<noteq> [])\<rparr>))
          getServiceNames\<rparr>"
proof -
  have d: "distinct (map fst SERVICE_CONFIGS)" by (simp add: SERVICE_CONFIGS_def)
  show ?thesis
    unfolding checkAuthStatus_def Let_def
    by (simp add: checkServices_fresh [OF d] getServiceNames_def split: option.splits)
qed

text \<open>
  C3. In every store state the snapshot's identity-provider flag is the validator's
  verdict on the loaded identity-provider set, false when no set is stored; the snapshot
  lists exactly the catalog keys, in catalog order, and for each of them
  \<open>authenticated\<close> is that same flag and \<open>hasServiceCookies\<close> says whether the credential
  set of the service's scope is non-empty.
\<close>

theorem checkAuthStatus_snapshot:
  "okta_authenticated (checkAuthStatus w)
     = (case loadOktaCookies w of None \<Rightarrow> False | Some cs \<Rightarrow> validateOktaSession w cs)
   \<and> map fst (services (checkAuthStatus w)) = getServiceNames
   \<and> (\<forall>k \<in> set getServiceNames.
         map_of (services (checkAuthStatus w)) k
           = Some \<lparr>authenticated = okta_authenticated (checkAuthStatus w),
                   hasServiceCookies = (loadServiceCookies w k \<noteq> [])\<rparr>)"
proof -
  have keys: "map fst (services (checkAuthStatus w)) = getServiceNames"
    by (simp add: checkAuthStatus_eq comp_def)
  have entry: "map_of (services (checkAuthStatus w)) k
      = Some \<lparr>authenticated = okta_authenticated (checkAuthStatus w),
              hasServiceCookies = (loadServiceCookies w k \<noteq> [])\<rparr>"
    if "k \<in> set getServiceNames" for k
    using that by (simp add: checkAuthStatus_eq map_of_map_restrict)
  from keys entry show ?thesis by (simp add: checkAuthStatus_eq)
qed

theorem checkAuthStatus_snapshot_witness:
  "okta_authenticated (checkAuthStatus (store_world (Some [idx_cookie None])
       [(''datahub'', [named_cookie ''sid'' ''1''])]))
   \<and> map fst (services (checkAuthStatus (store_world (Some [idx_cookie None])
       [(''datahub'', [named_cookie ''sid'' ''1''])]))) = [''datahub'', ''splunk'', ''zeppelin'']
   \<and> map_of (services (checkAuthStatus (store_world (Some [idx_cookie None])
       [(''datahub'', [named_cookie ''sid'' ''1''])]))) ''datahub''
       = Some \<lparr>authenticated = True, hasServiceCookies = True\<rparr>
   \<and> map_of (services (checkAuthStatus (store_world (Some [idx_cookie None])
       [(''datahub'', [named_cookie ''sid'' ''1''])]))) ''splunk''
       = Some \<lparr>authenticated = True, hasServiceCookies = False\<rparr>
   \<and> map_of (services (checkAuthStatus (store_world (Some [idx_cookie None])
       [(''datahub'', [named_cookie ''sid'' ''1''])]))) ''zeppelin''
       = Some \<lparr>authenticated = True, hasServiceCookies = False\<rparr>
   \<and> \<not> okta_authenticated (checkAuthStatus (store_world None []))"
proof -
  let ?w = "store_world (Some [idx_cookie None]) [(''datahub'', [named_cookie ''sid'' ''1''])]"
  have v: "validateOktaSession ?w [idx_cookie None]"
    by (simp add: validateOktaSession_def isSessionCookie_def idx_cookie_def)
  note snap = checkAuthStatus_snapshot [of ?w]
  from snap v have flag: "okta_authenticated (checkAuthStatus ?w)"
    by (simp add: store_world_okta)
  from snap have entries: "\<forall>k \<in> set [''datahub'', ''splunk'', ''zeppelin''].
      map_of (services (checkAuthStatus ?w)) k
        = Some \<lparr>authenticated = okta_authenticated (checkAuthStatus ?w),
                hasServiceCookies = (loadServiceCookies ?w k \<noteq> [])\<rparr>"
    unfolding catalog_keys by blast
  from checkAuthStatus_snapshot [of "store_world None []"]
  have none: "\<not> okta_authenticated (checkAuthStatus (store_world None []))"
    by (simp add: store_world_okta)
  from snap flag entries none show ?thesis
    by (simp add: catalog_keys store_world_service)
qed

section \<open>Service tokens\<close>

lemma getServiceToken_unresolved:
  assumes "js_get SERVICE_CONFIGS k = Undefined"
  shows "getServiceToken w k = Inl (Error (''Unknown service: '' @ k))"
    and "callTool browser w ''get_service_token'' (args\<lparr>arg_service := Some k\<rparr>)
           = (ErrorPayload True (''Unknown service: '' @ k), w)"
  using assms by (simp_all add: getServiceToken_def callTool_def js_string_def)

text \<open>
  C4. The key \<^verbatim>\<open>constructor\<close> is not in the catalog, yet \<^verbatim>\<open>SERVICE_CONFIGS[service]\<close>
  finds the property that every object literal inherits, so the guard
  \<^verbatim>\<open>if (!config)\<close> does not fire: no \<^verbatim>\<open>Unknown service\<close> error is thrown, and the tool
  surface delivers the result of the empty scope instead of the error payload.
\<close>

theorem getServiceToken_inherited_key:
  "''constructor'' \<notin> set getServiceNames
   \<and> getServiceToken (store_world None []) ''constructor''
       = Inr \<lparr>tr_success = False,
              tr_message = Some ''No authentication found for constructor'',
              tr_service = None, tr_token = None, tr_cookies = None\<rparr>
   \<and> callTool no_display (store_world None []) ''get_service_token''
         \<lparr>arg_service = Some ''constructor'', arg_username = None, arg_forceRefresh = None,
          arg_fromService = None, arg_toService = None\<rparr>
       = (TokenPayload
            \<lparr>tr_success = False,
             tr_message = Some ''No authentication found for constructor'',
             tr_service = None, tr_token = None, tr_cookies = None\<rparr>,
          store_world None [])"
proof -
  have k: "js_get SERVICE_CONFIGS ''constructor'' = Inherited"
    by (simp add: js_get_def SERVICE_CONFIGS_def objectPrototypeProps_def)
  have l: "loadServiceCookies (store_world None []) ''constructor'' = []"
    by (simp add: store_world_service)
  have t: "getServiceToken (store_world None []) ''constructor''
      = Inr \<lparr>tr_success = False,
             tr_message = Some ''No authentication found for constructor'',
             tr_service = None, tr_token = None, tr_cookies = None\<rparr>"
    by (simp add: getServiceToken_def k l)
  then show ?thesis by (simp add: callTool_def js_string_def catalog_keys)
qed

lemma named_cookie_fields: "name (named_cookie n v) = n" "val (named_cookie n v) = v"
  by (simp_all add: named_cookie_def)

lemma isTokenCookie_iff:
  "isTokenCookie c \<longleftrightarrow>
     sublist ''token'' (toLowerCase (name c)) \<or> sublist ''session'' (toLowerCase (name c))"
  by (simp add: isTokenCookie_def str_includes_iff sublist_def)

text \<open>
  C6. For a catalog key whose entry declares token-typed sessions and whose scope holds a
  non-empty credential set, \<^verbatim>\<open>getServiceToken\<close> returns a success result that carries the
  key and the full credential set. Its token is the value of the first credential, in
  stored order, whose lower-cased name contains \<^verbatim>\<open>token\<close> or \<^verbatim>\<open>session\<close>; when no
  name does, the result is still a success and its token field is empty.
\<close>

theorem getServiceToken_token_typed:
  assumes "map_of SERVICE_CONFIGS k = Some cfg" and "sessionType cfg = token_session"
    and "loadServiceCookies w k \<noteq> []"
  shows "\<exists>r. getServiceToken w k = Inr r \<and> tr_success r \<and> tr_service r = Some k
     \<and> tr_cookies r = Some (loadServiceCookies w k)
     \<and> (\<forall>pre c post.
           loadServiceCookies w k = pre @ c # post
           \<and> (sublist ''token'' (toLowerCase (name c))
                \<or> sublist ''session'' (toLowerCase (name c)))
           \<and> (\<forall>d \<in> set pre. \<not> sublist ''token'' (toLowerCase (name d))
                              \<and> \<not> sublist ''session'' (toLowerCase (name d)))
           \<longrightarrow> tr_token r = Some (val c))
     \<and> ((\<forall>c \<in> set (loadServiceCookies w k).
            \<not> sublist ''token'' (toLowerCase (name c))
            \<and> \<not> sublist ''session'' (toLowerCase (name c)))
          \<longrightarrow> tr_token r = None)"
proof -
  let ?cs = "loadServiceCookies w k"
  let ?r = "\<lparr>tr_success = True, tr_message = None, tr_service = Some k,
             tr_token = map_option val (array_find isTokenCookie ?cs),
             tr_cookies = Some ?cs\<rparr>"
  from assms(1) have own: "js_get SERVICE_CONFIGS k = Own cfg" by (simp add: js_get_def)
  with assms(2,3) have run: "getServiceToken w k = Inr ?r"
    by (simp add: getServiceToken_def Let_def)
  have first: "tr_token ?r = Some (val c)"
    if "?cs = pre @ c # post" "isTokenCookie c" "\<forall>d \<in> set pre. \<not> isTokenCookie d"
    for pre c post
  proof -
    from that have "array_find isTokenCookie ?cs = Some c"
      unfolding array_find_first by blast
    then show ?thesis by simp
  qed
  have a: "\<forall>pre c post.
           ?cs = pre @ c # post
           \<and> (sublist ''token'' (toLowerCase (name c))
                \<or> sublist ''session'' (toLowerCase (name c)))
           \<and> (\<forall>d \<in> set pre. \<not> sublist ''token'' (toLowerCase (name d))
                              \<and> \<not> sublist ''session'' (toLowerCase (name d)))
           \<longrightarrow> tr_token ?r = Some (val c)"
  proof (intro allI impI)
    fix pre c post
    assume "?cs = pre @ c # post
           \<and> (sublist ''token'' (toLowerCase (name c))
                \<or> sublist ''session'' (toLowerCase (name c)))
           \<and> (\<forall>d \<in> set pre. \<not> sublist ''token'' (toLowerCase (name d))
                              \<and> \<not> sublist ''session'' (toLowerCase (name d)))"
    then have "?cs = pre @ c # post" "isTokenCookie c" "\<forall>d \<in> set pre. \<not> isTokenCookie d"
      by (simp_all add: isTokenCookie_iff)
    then show "tr_token ?r = Some (val c)" by (rule first)
  qed
  have b: "(\<forall>c \<in> set ?cs.
            \<not> sublist ''token'' (toLowerCase (name c))
            \<and> \<not> sublist ''session'' (toLowerCase (name c)))
          \<longrightarrow> tr_token ?r = None"
  proof
    assume "\<forall>c \<in> set ?cs.
            \<not> sublist ''token'' (toLowerCase (name c))
            \<and> \<not> sublist ''session'' (toLowerCase (name c))"
    then have "\<forall>c \<in> set ?cs. \<not> isTokenCookie c" by (simp add: isTokenCookie_iff)
    then show "tr_token ?r = None" by (simp add: array_find_None_iff)
  qed
  have c: "tr_success ?r \<and> tr_service ?r = Some k \<and> tr_cookies ?r = Some ?cs" by simp
  from run a b c show ?thesis by blast
qed

theorem getServiceToken_token_typed_witness:
  "(\<exists>r. getServiceToken
          (store_world None
             [(''splunk'', [named_cookie ''csrf'' ''x'', named_cookie ''Splunk_SESSION_id'' ''s1'',
                            named_cookie ''token'' ''t2''])]) ''splunk'' = Inr r
        \<and> tr_success r \<and> tr_token r = Some ''s1'')
   \<and> (\<exists>r. getServiceToken (store_world None [(''splunk'', [named_cookie ''csrf'' ''x''])])
             ''splunk'' = Inr r
        \<and> tr_success r \<and> tr_token r = None
        \<and> tr_cookies r = Some [named_cookie ''csrf'' ''x''])"
proof -
  let ?cs = "[named_cookie ''csrf'' ''x'', named_cookie ''Splunk_SESSION_id'' ''s1'',
              named_cookie ''token'' ''t2'']"
  let ?w = "store_world None [(''splunk'', ?cs)]"
  let ?v = "store_world None [(''splunk'', [named_cookie ''csrf'' ''x''])]"
  let ?cfg = "\<lparr>sc_name = ''Splunk Cloud'', url = ''https://toast.splunkcloud.com'',
         cookieDomain = ''toast.splunkcloud.com'', sessionType = token_session,
         description = ''Log aggregation and monitoring'',
         legacyPath = Some ''~/.mcp-splunk/cookies.json''\<rparr>"
  have cfg: "map_of SERVICE_CONFIGS ''splunk'' = Some ?cfg" "sessionType ?cfg = token_session"
    by (simp_all add: SERVICE_CONFIGS_def)
  have lw: "loadServiceCookies ?w ''splunk'' = ?cs" by (simp add: store_world_service)
  have lv: "loadServiceCookies ?v ''splunk'' = [named_cookie ''csrf'' ''x'']"
    by (simp add: store_world_service)
  have csrf: "\<not> sublist ''token'' (toLowerCase ''csrf'')"
    "\<not> sublist ''session'' (toLowerCase ''csrf'')"
    unfolding sublist_def str_includes_iff [symmetric]
    by (simp_all add: toLowerCase_def toLowerChar_def)
  have sess: "sublist ''session'' (toLowerCase ''Splunk_SESSION_id'')"
    unfolding sublist_def str_includes_iff [symmetric]
    by (simp add: toLowerCase_def toLowerChar_def)
  from lw have "loadServiceCookies ?w ''splunk'' \<noteq> []" by simp
  from getServiceToken_token_typed [OF cfg this]
  obtain r where r: "getServiceToken ?w ''splunk'' = Inr r" "tr_success r"
    "\<And>pre c post. loadServiceCookies ?w ''splunk'' = pre @ c # post
       \<and> (sublist ''token'' (toLowerCase (name c))
            \<or> sublist ''session'' (toLowerCase (name c)))
       \<and> (\<forall>d \<in> set pre. \<not> sublist ''token'' (toLowerCase (name d))
                          \<and> \<not> sublist ''session'' (toLowerCase (name d)))
       \<Longrightarrow> tr_token r = Some (val c)"
    by blast
  have "tr_token r = Some (val (named_cookie ''Splunk_SESSION_id'' ''s1''))"
  proof (rule r(3))
    show "loadServiceCookies ?w ''splunk''
        = [named_cookie ''csrf'' ''x''] @ named_cookie ''Splunk_SESSION_id'' ''s1''
            # [named_cookie ''token'' ''t2'']
      \<and> (sublist ''token'' (toLowerCase (name (named_cookie ''Splunk_SESSION_id'' ''s1'')))
           \<or> sublist ''session''
                (toLowerCase (name (named_cookie ''Splunk_SESSION_id'' ''s1''))))
      \<and> (\<forall>d \<in> set [named_cookie ''csrf'' ''x''].
             \<not> sublist ''token'' (toLowerCase (name d))
             \<and> \<not> sublist ''session'' (toLowerCase (name d)))"
      using csrf sess by (simp add: lw named_cookie_fields)
  qed
  then have a: "tr_token r = Some ''s1''" by (simp add: named_cookie_fields)
  from lv have "loadServiceCookies ?v ''splunk'' \<noteq> []" by simp
  from getServiceToken_token_typed [OF cfg this]
  obtain q where q: "getServiceToken ?v ''splunk'' = Inr q" "tr_success q"
    "tr_cookies q = Some (loadServiceCookies ?v ''splunk'')"
    "(\<forall>c \<in> set (loadServiceCookies ?v ''splunk'').
        \<not> sublist ''token'' (toLowerCase (name c))
        \<and> \<not> sublist ''session'' (toLowerCase (name c)))
     \<Longrightarrow> tr_token q = None"
    by blast
  have b: "tr_token q = None"
    by (rule q(4)) (simp add: lv named_cookie_fields csrf)
  from r(1,2) a q(1,2,3) b lv show ?thesis by simp
qed

section \<open>Letter case of service keys\<close>

lemma toLowerCase_catalog_key: "k \<in> set getServiceNames \<Longrightarrow> toLowerCase k = k"
  by (auto simp: catalog_keys toLowerCase_def toLowerChar_def)

lemma toLowerCase_prototype_prop:
  "p \<in> set objectPrototypeProps \<Longrightarrow> toLowerCase p \<notin> set getServiceNames"
  by (auto simp: catalog_keys objectPrototypeProps_def toLowerCase_def toLowerChar_def)

text \<open>
  C10. A key that is not a catalog key itself and equals a catalog key up to letter case is
  known to the registry (\<^verbatim>\<open>isValidService\<close> is true and \<^verbatim>\<open>getService\<close> returns the
  descriptor of that catalog key), while \<^verbatim>\<open>getServiceToken\<close>, which looks the key up as
  it is, throws \<^verbatim>\<open>Unknown service\<close>.
\<close>

theorem case_variant_key_mismatch:
  assumes "map_of SERVICE_CONFIGS key = Some cfg"
    and "toLowerCase k = toLowerCase key" and "k \<noteq> key"
  shows "isValidService k \<and> getService k = Own cfg
     \<and> getServiceToken w k = Inl (Error (''Unknown service: '' @ k))"
proof -
  from assms(1) have "(key, cfg) \<in> set SERVICE_CONFIGS" by (rule map_of_SomeD)
  then have key: "key \<in> set getServiceNames" by (force simp: getServiceNames_def)
  then have low: "toLowerCase k = key" using assms(2) by (simp add: toLowerCase_catalog_key)
  with assms(1) have reg: "js_get SERVICE_CONFIGS (toLowerCase k) = Own cfg"
    by (simp add: js_get_def)
  have not_own: "k \<notin> set getServiceNames"
  proof
    assume "k \<in> set getServiceNames"
    then have "toLowerCase k = k" by (rule toLowerCase_catalog_key)
    with low assms(3) show False by simp
  qed
  have not_inherited: "k \<notin> set objectPrototypeProps"
  proof
    assume "k \<in> set objectPrototypeProps"
    then have "toLowerCase k \<notin> set getServiceNames" by (rule toLowerCase_prototype_prop)
    with low key show False by simp
  qed
  from not_own have "map_of SERVICE_CONFIGS k = None"
    by (simp add: getServiceNames_def map_of_eq_None_iff)
  with not_inherited have "js_get SERVICE_CONFIGS k = Undefined" by (simp add: js_get_def)
  then have "getServiceToken w k = Inl (Error (''Unknown service: '' @ k))"
    by (rule getServiceToken_unresolved(1))
  with reg show ?thesis by (simp add: isValidService_def getService_def js_in_def)
qed

theorem case_variant_key_mismatch_witness:
  "toLowerCase ''DataHub'' = toLowerCase ''datahub'' \<and> ''DataHub'' \<noteq> ''datahub''
   \<and> isValidService ''DataHub''
   \<and> (\<exists>cfg. map_of SERVICE_CONFIGS ''datahub'' = Some cfg \<and> getService ''DataHub'' = Own cfg)
   \<and> getServiceToken (store_world None [(''datahub'', [named_cookie ''sid'' ''1''])]) ''DataHub''
       = Inl (Error ''Unknown service: DataHub'')
   \<and> isValidService ''SPLUNK''
   \<and> getServiceToken (store_world None []) ''SPLUNK'' = Inl (Error ''Unknown service: SPLUNK'')"
proof -
  obtain cfg where cfg: "map_of SERVICE_CONFIGS ''datahub'' = Some cfg"
    by (simp add: SERVICE_CONFIGS_def)
  obtain cfg' where cfg': "map_of SERVICE_CONFIGS ''splunk'' = Some cfg'"
    by (simp add: SERVICE_CONFIGS_def)
  have l: "toLowerCase ''DataHub'' = toLowerCase ''datahub''"
    "toLowerCase ''SPLUNK'' = toLowerCase ''splunk''"
    by (simp_all add: toLowerCase_def toLowerChar_def)
  have n: "''DataHub'' \<noteq> ''datahub''" "''SPLUNK'' \<noteq> ''splunk''" by simp_all
  note a = case_variant_key_mismatch [OF cfg l(1) n(1)]
  note b = case_variant_key_mismatch [OF cfg' l(2) n(2)]
  from a [of "store_world None [(''datahub'', [named_cookie ''sid'' ''1''])]"]
       b [of "store_world None []"] cfg l n
  show ?thesis by simp
qed

end
